theory Spec2Isabelle
  imports Complex_Main "HOL-Library.Sublist"
begin

section \<open>TrustGuard eBay content script: configuration and constants\<close>

text \<open>
  The script \<^verbatim>\<open>content-ebay.js\<close> reads an eBay listing page, extracts a record of
  listing data from it and asks a scoring service for a verdict. This theory embeds its
  constants, its field extractors and its cache lookup.

  JavaScript numbers are modelled as exact reals together with the value \<^verbatim>\<open>NaN\<close>;
  rounding to IEEE doubles is not modelled. A value \<open>Num r\<close> stands for the double
  nearest to \<open>r\<close>. A decimal numeral of at most 15 significant digits names its double
  one to one (the double prints back as the numeral, and an integer below \<open>10 ^ 15\<close> is
  a double itself), so within that bound \<open>r\<close> identifies what the code returns. Beyond it
  several numerals share a double and a very long one is \<^verbatim>\<open>Infinity\<close>; no statement
  about a parsed value is made there. Strings are lists of characters.
\<close>

datatype number = Num real | NaN

datatype config_value = ConfStr string | ConfNum int

text \<open>The object \<^verbatim>\<open>TRUSTGUARD_CONFIG\<close>, key by key, in the order of the source.\<close>

definition TRUSTGUARD_CONFIG :: "(string \<times> config_value) list" where
  "TRUSTGUARD_CONFIG =
     [(''API_URL'', ConfStr ''https://api.trustguard.com/v1''),
      (''CACHE_DURATION'', ConfNum 300000),
      (''DEBOUNCE_DELAY'', ConfNum 500),
      (''MAX_RETRIES'', ConfNum 3),
      (''OVERLAY_Z_INDEX'', ConfNum 999999)]"

text \<open>Reading a property of the object: a key that is not there is \<^verbatim>\<open>undefined\<close>.\<close>

definition config_get :: "string \<Rightarrow> config_value option" where
  "config_get k = map_of TRUSTGUARD_CONFIG k"

definition CACHE_DURATION :: int where
  "CACHE_DURATION = (case config_get ''CACHE_DURATION'' of Some (ConfNum n) \<Rightarrow> n | _ \<Rightarrow> 0)"

subsection \<open>Risk levels\<close>

datatype risk_level = CRITICAL | HIGH | MEDIUM | LOW | SAFE

text \<open>
  The table \<^verbatim>\<open>RISK_LEVELS\<close>, in the order of the source. Of each entry only the label
  and the \<^verbatim>\<open>score\<close> field (the lower bound of the band) are kept; colours and icons
  are presentation.
\<close>

record level_info =
  label :: string
  score :: real

definition RISK_LEVELS :: "(risk_level \<times> level_info) list" where
  "RISK_LEVELS =
     [(CRITICAL, \<lparr>label = ''High Risk'', score = 80\<rparr>),
      (HIGH, \<lparr>label = ''Caution'', score = 60\<rparr>),
      (MEDIUM, \<lparr>label = ''Medium Risk'', score = 40\<rparr>),
      (LOW, \<lparr>label = ''Low Risk'', score = 20\<rparr>),
      (SAFE, \<lparr>label = ''Verified Safe'', score = 0\<rparr>)]"

text \<open>
  The function \<^verbatim>\<open>classify(score) -> level\<close> that reads the table is not in the source
  files at hand; only the table is. The three definitions that follow are written from
  the specification's description of it.
\<close>

text \<open>Modelled from the spec: the classifier's input clamp, missing from the source.
  The input is clamped to [0,100] before banding.\<close>

definition clamp :: "real \<Rightarrow> real" where
  "clamp s = max 0 (min 100 s)"

text \<open>Modelled from the spec: the classifier's band lookup, missing from the source.
  A static lookup over ordered bands with inclusive lower bounds: walking the table from
  the most severe band down, the first level whose lower bound the score reaches; below
  every bound, the last band.\<close>

fun lookup_band :: "(risk_level \<times> level_info) list \<Rightarrow> real \<Rightarrow> risk_level" where
  "lookup_band [] s = SAFE"
| "lookup_band ((l, i) # rest) s = (if score i \<le> s then l else lookup_band rest s)"

text \<open>Modelled from the spec: the function \<^verbatim>\<open>classify\<close>, missing from the source.
  The lookup over the source's table \<^verbatim>\<open>RISK_LEVELS\<close>, on the clamped score.\<close>

definition classify :: "real \<Rightarrow> risk_level" where
  "classify s = lookup_band RISK_LEVELS (clamp s)"

text \<open>The severity order of the levels, \<open>SAFE\<close> lowest.\<close>

fun severity :: "risk_level \<Rightarrow> nat" where
  "severity SAFE = 0"
| "severity LOW = 1"
| "severity MEDIUM = 2"
| "severity HIGH = 3"
| "severity CRITICAL = 4"

section \<open>Strings, numbers and patterns\<close>

text \<open>
  The built-in string operations the extractors call, on ASCII characters. Characters
  outside ASCII are left unchanged by \<open>toLowerCase\<close> and are not white space for
  \<open>trim\<close>.
\<close>

definition is_space :: "char \<Rightarrow> bool" where
  "is_space c = (c \<in> set [CHR 0x09, CHR 0x0A, CHR 0x0B, CHR 0x0C, CHR 0x0D, CHR '' ''])"

definition trim :: "string \<Rightarrow> string" where
  "trim s = rev (dropWhile is_space (rev (dropWhile is_space s)))"

definition to_lower :: "char \<Rightarrow> char" where
  "to_lower c =
     (case map_of (zip ''ABCDEFGHIJKLMNOPQRSTUVWXYZ'' ''abcdefghijklmnopqrstuvwxyz'') c of
        Some l \<Rightarrow> l
      | None \<Rightarrow> c)"

definition toLowerCase :: "string \<Rightarrow> string" where
  "toLowerCase s = map to_lower s"

text \<open>\<^verbatim>\<open>s.includes(sub)\<close>: \<open>sub\<close> occurs in \<open>s\<close> as a contiguous piece.\<close>

fun includes_str :: "string \<Rightarrow> string \<Rightarrow> bool" where
  "includes_str [] sub = (sub = [])"
| "includes_str (c # cs) sub = (prefix sub (c # cs) \<or> includes_str cs sub)"

definition substring0 :: "nat \<Rightarrow> string \<Rightarrow> string" where
  "substring0 n s = take n s"

fun join :: "string \<Rightarrow> string list \<Rightarrow> string" where
  "join sep [] = []"
| "join sep [x] = x"
| "join sep (x # y # ys) = x @ sep @ join sep (y # ys)"

definition replace_commas :: "string \<Rightarrow> string" where
  "replace_commas s = filter (\<lambda>c. c \<noteq> CHR '','') s"

subsection \<open>Character classes\<close>

definition is_digit :: "char \<Rightarrow> bool" where
  "is_digit c = (c \<in> set ''0123456789'')"

definition digit_or_comma :: "char \<Rightarrow> bool" where
  "digit_or_comma c = (is_digit c \<or> c = CHR '','')"

definition digit_or_dot :: "char \<Rightarrow> bool" where
  "digit_or_dot c = (is_digit c \<or> c = CHR ''.'')"

text \<open>The characters a number is written with: digits, the comma and the dot.\<close>

definition numeric_char :: "char \<Rightarrow> bool" where
  "numeric_char c = (is_digit c \<or> c = CHR '','' \<or> c = CHR ''.'')"

subsection \<open>The regular expressions of the extractors\<close>

text \<open>
  \<^verbatim>\<open>String.prototype.match\<close> with a pattern that has no \<^verbatim>\<open>g\<close> flag returns the
  leftmost match, each quantifier taking as much as it can. Every pattern of the script is
  a run of one character class, in places after a fixed prefix or before an optional
  tail that can always match the empty string, so the leftmost greedy match is found by
  one scan and no backtracking changes it. \<open>None\<close> is the \<^verbatim>\<open>null\<close> of a failed match.
\<close>

text \<open>\<^verbatim>\<open>/[\d,]+\.?\d*/\<close>: the whole match.\<close>

definition match_price :: "string \<Rightarrow> string option" where
  "match_price s =
     (let t = dropWhile (\<lambda>c. \<not> digit_or_comma c) s in
      if t = [] then None
      else Some (takeWhile digit_or_comma t @
                 (case dropWhile digit_or_comma t of
                    [] \<Rightarrow> []
                  | c # r \<Rightarrow> if c = CHR ''.'' then c # takeWhile is_digit r else [])))"

text \<open>A pattern \<^verbatim>\<open>/[...]+/\<close> of one character class \<open>P\<close>: the first run of
  characters of the class, as long as it goes.\<close>

definition first_run :: "(char \<Rightarrow> bool) \<Rightarrow> string \<Rightarrow> string option" where
  "first_run P s =
     (let t = dropWhile (\<lambda>c. \<not> P c) s in
      if t = [] then None else Some (takeWhile P t))"

text \<open>\<^verbatim>\<open>/[\d,]+/\<close>: the whole match.\<close>

definition match_feedback :: "string \<Rightarrow> string option" where
  "match_feedback s = first_run digit_or_comma s"

text \<open>\<^verbatim>\<open>/[\d.]+/\<close>: the whole match.\<close>

definition match_shipping :: "string \<Rightarrow> string option" where
  "match_shipping s = first_run digit_or_dot s"

text \<open>\<^verbatim>\<open>/\/itm\/(\d+)/\<close>: the first group, the digits after the leftmost \<^verbatim>\<open>/itm/\<close>
  that a digit follows.\<close>

fun match_itm :: "string \<Rightarrow> string option" where
  "match_itm [] = None"
| "match_itm (c # cs) =
     (if prefix ''/itm/'' (c # cs) \<and> takeWhile is_digit (drop 5 (c # cs)) \<noteq> []
      then Some (takeWhile is_digit (drop 5 (c # cs)))
      else match_itm cs)"

text \<open>\<^verbatim>\<open>/\/usr\/([^?]+)/\<close>: the first group, the characters up to the next \<^verbatim>\<open>?\<close>
  after the leftmost \<^verbatim>\<open>/usr/\<close> that is followed by a character other than \<^verbatim>\<open>?\<close>.\<close>

fun match_usr :: "string \<Rightarrow> string option" where
  "match_usr [] = None"
| "match_usr (c # cs) =
     (if prefix ''/usr/'' (c # cs) \<and> takeWhile (\<lambda>x. x \<noteq> CHR ''?'') (drop 5 (c # cs)) \<noteq> []
      then Some (takeWhile (\<lambda>x. x \<noteq> CHR ''?'') (drop 5 (c # cs)))
      else match_usr cs)"

subsection \<open>parseFloat and parseInt\<close>

text \<open>
  The extractors pass to \<^verbatim>\<open>parseFloat\<close> and \<^verbatim>\<open>parseInt\<close> only pieces matched
  by the patterns above with the commas removed: strings of digits and dots. On such a
  string \<^verbatim>\<open>parseFloat\<close> reads the longest prefix that is a decimal literal (digits,
  then optionally a dot and digits; or a dot and at least one digit) and \<^verbatim>\<open>parseInt\<close>
  the longest prefix of digits; where there is no such prefix the result is \<^verbatim>\<open>NaN\<close>.
  Any other character ends the literal; signs, exponents, \<^verbatim>\<open>Infinity\<close> and leading
  white space do not occur in these strings and are not modelled.

  The result is the exact value of the literal, which names the double the built-in
  returns as long as the literal has at most 15 digits in all; the built-in rounds a
  longer literal to the nearest double, which the exact value does not show. Properties
  of parsed values are therefore stated for literals within the bound only.
\<close>

definition digit_val :: "char \<Rightarrow> nat" where
  "digit_val c = of_char c - 48"

definition digits_val :: "string \<Rightarrow> nat" where
  "digits_val ds = foldl (\<lambda>acc c. 10 * acc + digit_val c) 0 ds"

definition parseInt :: "string \<Rightarrow> number" where
  "parseInt s =
     (let ip = takeWhile is_digit s in
      if ip = [] then NaN else Num (of_nat (digits_val ip)))"

definition parseFloat :: "string \<Rightarrow> number" where
  "parseFloat s =
     (let ip = takeWhile is_digit s;
          fp = (case dropWhile is_digit s of
                  [] \<Rightarrow> []
                | c # r \<Rightarrow> if c = CHR ''.'' then takeWhile is_digit r else [])
      in if ip = [] \<and> fp = [] then NaN
         else Num (of_nat (digits_val ip) + of_nat (digits_val fp) / 10 ^ length fp))"

section \<open>The listing page\<close>

text \<open>
  The script sees the page through \<^verbatim>\<open>window.location.href\<close>,
  \<^verbatim>\<open>document.querySelector\<close>, \<^verbatim>\<open>document.querySelectorAll\<close> and \<^verbatim>\<open>Date.now()\<close>.
  A page is modelled by what these return: for each selector the list of matching
  elements in document order (\<^verbatim>\<open>querySelector\<close> returns the first of them or
  \<^verbatim>\<open>null\<close>), and of an element the properties the script reads.

  Reading \<^verbatim>\<open>contentWindow.document.body.textContent\<close> of an iframe goes through three
  objects, each of which can fail: an iframe without a browsing context has
  \<^verbatim>\<open>contentWindow\<close> \<^verbatim>\<open>null\<close>, the \<^verbatim>\<open>document\<close> of a frame from another origin
  cannot be read (a SecurityError is thrown), and a document that has no body yet has
  \<^verbatim>\<open>body\<close> \<^verbatim>\<open>null\<close>.
\<close>

datatype error = TypeError | SecurityError

datatype frame = NoWindow | CrossOrigin | NoBody | Body string

record element =
  textContent :: string
  src :: string
  href :: string
  contentWindow :: frame

record document =
  location_href :: string
  querySelectorAll :: "string \<Rightarrow> element list"
  date_now :: int

definition querySelector :: "document \<Rightarrow> string \<Rightarrow> element option" where
  "querySelector d sel = (case querySelectorAll d sel of [] \<Rightarrow> None | e # _ \<Rightarrow> Some e)"

text \<open>\<^verbatim>\<open>a || b\<close> on two element lookups: the first if it is not \<^verbatim>\<open>null\<close>.\<close>

definition or_else :: "element option \<Rightarrow> element option \<Rightarrow> element option" where
  "or_else a b = (case a of Some e \<Rightarrow> Some e | None \<Rightarrow> b)"

section \<open>The listing data extractor\<close>

record listing_data =
  url :: string
  itemId :: "string option"
  title :: string
  price :: "number option"
  sellerId :: "string option"
  sellerName :: string
  sellerFeedback :: "number option"
  imageUrls :: "string list"
  description :: string
  condition :: string
  shipping :: "number option"
  category :: string
  timestamp :: int

text \<open>In the results \<open>None\<close> is \<^verbatim>\<open>null\<close>.\<close>

definition extractItemId :: "document \<Rightarrow> string option" where
  "extractItemId d = match_itm (location_href d)"

definition extractTitle :: "document \<Rightarrow> string" where
  "extractTitle d =
     (case or_else (querySelector d ''h1.x-item-title__mainTitle'') (querySelector d ''.it-ttl'') of
        Some titleEl \<Rightarrow> trim (textContent titleEl)
      | None \<Rightarrow> [])"

text \<open>The element lookups of the three numeric extractors, named as in the source.\<close>

definition priceEl :: "document \<Rightarrow> element option" where
  "priceEl d = or_else (querySelector d ''.x-price-primary span.ux-textspans'')
                       (querySelector d ''#prcIsum'')"

definition feedbackEl :: "document \<Rightarrow> element option" where
  "feedbackEl d = or_else (querySelector d ''.x-sellercard-atf__data--score'')
                          (querySelector d ''#si-fb'')"

definition shippingEl :: "document \<Rightarrow> element option" where
  "shippingEl d = querySelector d ''.ux-labels-values--shipping .ux-textspans--BOLD''"

definition extractPrice :: "document \<Rightarrow> number option" where
  "extractPrice d =
     (case priceEl d of
        None \<Rightarrow> None
      | Some el \<Rightarrow>
          (case match_price (trim (textContent el)) of
             Some m \<Rightarrow> Some (parseFloat (replace_commas m))
           | None \<Rightarrow> None))"

text \<open>The selector \<^verbatim>\<open>a[href*="/usr/"]\<close>; \<open>CHR 0x22\<close> is the double quote.\<close>

definition seller_link_selector :: string where
  "seller_link_selector = ''a[href*='' @ [CHR 0x22] @ ''/usr/'' @ [CHR 0x22] @ '']''"

definition extractSellerId :: "document \<Rightarrow> string option" where
  "extractSellerId d =
     (case querySelector d seller_link_selector of
        None \<Rightarrow> None
      | Some sellerLink \<Rightarrow> match_usr (href sellerLink))"

definition extractSellerName :: "document \<Rightarrow> string" where
  "extractSellerName d =
     (case or_else (querySelector d ''.x-sellercard-atf__info__about-seller a'')
                   (querySelector d ''#mbgLink'') of
        Some sellerEl \<Rightarrow> trim (textContent sellerEl)
      | None \<Rightarrow> [])"

definition extractSellerFeedback :: "document \<Rightarrow> number option" where
  "extractSellerFeedback d =
     (case feedbackEl d of
        None \<Rightarrow> None
      | Some el \<Rightarrow>
          (case match_feedback (trim (textContent el)) of
             Some m \<Rightarrow> Some (parseInt (replace_commas m))
           | None \<Rightarrow> None))"

text \<open>The \<^verbatim>\<open>forEach\<close> loop of \<^verbatim>\<open>extractImages\<close>, pushing onto \<^verbatim>\<open>images\<close>.\<close>

fun push_images :: "element list \<Rightarrow> string list \<Rightarrow> string list" where
  "push_images [] images = images"
| "push_images (img # rest) images =
     push_images rest
       (if src img \<noteq> [] \<and> \<not> includes_str (src img) ''placeholder''
        then images @ [src img] else images)"

definition extractImages :: "document \<Rightarrow> string list" where
  "extractImages d =
     take 5 (push_images (querySelectorAll d ''.ux-image-carousel-item img'') [])"

text \<open>The only extractor that can throw: it reads through the iframe unguarded.\<close>

definition extractDescription :: "document \<Rightarrow> error + string" where
  "extractDescription d =
     (case querySelector d ''.x-item-description iframe'' of
        None \<Rightarrow> Inr []
      | Some descEl \<Rightarrow>
          (case contentWindow descEl of
             NoWindow \<Rightarrow> Inl TypeError
           | CrossOrigin \<Rightarrow> Inl SecurityError
           | NoBody \<Rightarrow> Inl TypeError
           | Body text \<Rightarrow> Inr (substring0 1000 text)))"

definition extractCondition :: "document \<Rightarrow> string" where
  "extractCondition d =
     (case or_else (querySelector d ''.x-item-condition-value__value'')
                   (querySelector d ''#vi-itm-cond'') of
        Some condEl \<Rightarrow> trim (textContent condEl)
      | None \<Rightarrow> ''Unknown'')"

definition extractShipping :: "document \<Rightarrow> number option" where
  "extractShipping d =
     (case shippingEl d of
        None \<Rightarrow> None
      | Some el \<Rightarrow>
          (let text = trim (textContent el) in
           if includes_str (toLowerCase text) ''free'' then Some (Num 0)
           else (case match_shipping text of
                   Some m \<Rightarrow> Some (parseFloat m)
                 | None \<Rightarrow> None)))"

definition extractCategory :: "document \<Rightarrow> string" where
  "extractCategory d =
     (let breadcrumbs = querySelectorAll d ''.breadcrumb a'' in
      if length breadcrumbs = 0 then ''Unknown''
      else join '' > '' (map (\<lambda>a. trim (textContent a)) breadcrumbs))"

text \<open>
  \<^verbatim>\<open>extractListingData\<close> evaluates the extractors in the order of the object literal.
  They only read the page, so the one effect to keep is the exception of
  \<^verbatim>\<open>extractDescription\<close>, which leaves the function before any object is built.
\<close>

definition extractListingData :: "document \<Rightarrow> error + listing_data" where
  "extractListingData d =
     (case extractDescription d of
        Inl e \<Rightarrow> Inl e
      | Inr desc \<Rightarrow>
          Inr \<lparr>url = location_href d,
               itemId = extractItemId d,
               title = extractTitle d,
               price = extractPrice d,
               sellerId = extractSellerId d,
               sellerName = extractSellerName d,
               sellerFeedback = extractSellerFeedback d,
               imageUrls = extractImages d,
               description = desc,
               condition = extractCondition d,
               shipping = extractShipping d,
               category = extractCategory d,
               timestamp = date_now d\<rparr>)"

text \<open>The test of the loop, on the \<^verbatim>\<open>src\<close> of an image, as a predicate of its own.\<close>

definition real_image :: "string \<Rightarrow> bool" where
  "real_image u = (u \<noteq> [] \<and> \<not> includes_str u ''placeholder'')"

section \<open>The API client and its cache\<close>

text \<open>
  \<^verbatim>\<open>TrustGuardAPI\<close> holds a \<^verbatim>\<open>Map\<close> from cache keys to cached entries. An entry
  carries the verdict and the time it was stored; the source reads the latter as
  \<^verbatim>\<open>cached.timestamp\<close>. The state also counts the calls made to the scoring service,
  which the source does not store; the count is there to state how often the service is
  invoked.
\<close>

record 'v cache_entry =
  entry_verdict :: 'v
  entry_timestamp :: int

record 'v api_state =
  cache :: "string \<rightharpoonup> 'v cache_entry"
  client_calls :: nat

text \<open>The key \<^verbatim>\<open>`listing_${listingData.itemId}`\<close>; a \<^verbatim>\<open>null\<close> id prints as \<^verbatim>\<open>null\<close>.\<close>

definition cacheKey :: "listing_data \<Rightarrow> string" where
  "cacheKey listingData =
     ''listing_'' @ (case itemId listingData of Some i \<Rightarrow> i | None \<Rightarrow> ''null'')"

text \<open>
  The source file ends inside \<^verbatim>\<open>analyzeList\<close>, after
  \<^verbatim>\<open>if (cached && (Date.now() - cached.timestamp\<close>. The key, the read of the map and
  the subtraction are the source's; the comparison and what follows are written from the
  specification.
\<close>

text \<open>Modelled from the spec: the freshness test of the cache read, missing from the
  source. A stored entry counts as absent once \<open>now - insertionTimestamp > ttl\<close>; expiry is
  evaluated on read. The ttl is the source's \<^verbatim>\<open>TRUSTGUARD_CONFIG.CACHE_DURATION\<close>.\<close>

definition cache_get :: "int \<Rightarrow> (string \<rightharpoonup> 'v cache_entry) \<Rightarrow> string \<Rightarrow> 'v option" where
  "cache_get now c key =
     (case c key of
        None \<Rightarrow> None
      | Some cached \<Rightarrow>
          if now - entry_timestamp cached > CACHE_DURATION then None
          else Some (entry_verdict cached))"

text \<open>Modelled from the spec: the body of \<^verbatim>\<open>analyzeList\<close> after the cache read,
  missing from the source. A fresh entry is returned with no call to the scoring client;
  otherwise the client is invoked, a successful verdict is stored under the key with the
  current time, replacing any entry, and a failure is returned without being stored. The
  client is a parameter: a function from the listing data to a failure or a verdict.\<close>

definition analyzeList ::
  "int \<Rightarrow> (listing_data \<Rightarrow> 'f + 'v) \<Rightarrow> listing_data \<Rightarrow> 'v api_state \<Rightarrow> ('f + 'v) \<times> 'v api_state" where
  "analyzeList now client listingData st =
     (case cache_get now (cache st) (cacheKey listingData) of
        Some v \<Rightarrow> (Inr v, st)
      | None \<Rightarrow>
          (case client listingData of
             Inr v \<Rightarrow>
               (Inr v,
                st\<lparr>cache := (cache st)(cacheKey listingData \<mapsto>
                               \<lparr>entry_verdict = v, entry_timestamp = now\<rparr>),
                   client_calls := client_calls st + 1\<rparr>)
           | Inl f \<Rightarrow> (Inl f, st\<lparr>client_calls := client_calls st + 1\<rparr>)))"

section \<open>Example pages and states\<close>

text \<open>Pages given by a table from selectors to the elements they match.\<close>

definition text_element :: "string \<Rightarrow> element" where
  "text_element t = \<lparr>textContent = t, src = [], href = [], contentWindow = NoWindow\<rparr>"

definition image_element :: "string \<Rightarrow> element" where
  "image_element u = \<lparr>textContent = [], src = u, href = [], contentWindow = NoWindow\<rparr>"

definition iframe_element :: "frame \<Rightarrow> element" where
  "iframe_element f = \<lparr>textContent = [], src = [], href = [], contentWindow = f\<rparr>"

definition page :: "(string \<times> element list) list \<Rightarrow> document" where
  "page tbl =
     \<lparr>location_href = ''https://www.ebay.com/itm/123456789012'',
      querySelectorAll = (\<lambda>sel. case map_of tbl sel of Some es \<Rightarrow> es | None \<Rightarrow> []),
      date_now = 1700000000000\<rparr>"

text \<open>A listing whose description frame is served from another origin.\<close>

definition cross_origin_page :: document where
  "cross_origin_page =
     page [(''h1.x-item-title__mainTitle'', [text_element ''Vintage camera'']),
           (''.x-price-primary span.ux-textspans'', [text_element ''US $12.99'']),
           (''.x-item-description iframe'', [iframe_element CrossOrigin])]"

text \<open>A listing whose price element holds words and a comma, but no digit.\<close>

definition price_on_request_page :: document where
  "price_on_request_page =
     page [(''h1.x-item-title__mainTitle'', [text_element ''Vintage camera'']),
           (''.x-price-primary span.ux-textspans'',
              [text_element ''Contact seller, price on request''])]"

text \<open>Listings with a shipping element of the given text, and one without.\<close>

definition shipping_page :: "string \<Rightarrow> document" where
  "shipping_page t = page [(''.ux-labels-values--shipping .ux-textspans--BOLD'', [text_element t])]"

definition no_shipping_page :: document where
  "no_shipping_page = page [(''h1.x-item-title__mainTitle'', [text_element ''Vintage camera''])]"

text \<open>A carousel of six images, the second a placeholder.\<close>

definition carousel_page :: document where
  "carousel_page =
     page [(''.ux-image-carousel-item img'',
            [image_element ''https://i.ebayimg.com/1.jpg'',
             image_element ''https://i.ebayimg.com/placeholder.gif'',
             image_element ''https://i.ebayimg.com/3.jpg'',
             image_element ''https://i.ebayimg.com/4.jpg'',
             image_element ''https://i.ebayimg.com/5.jpg'',
             image_element ''https://i.ebayimg.com/6.jpg''])]"

text \<open>A page with its price elements taken out: both price selectors match nothing.\<close>

definition without_price :: "document \<Rightarrow> document" where
  "without_price d =
     d\<lparr>querySelectorAll :=
         (querySelectorAll d)(''.x-price-primary span.ux-textspans'' := [], ''#prcIsum'' := [])\<rparr>"

text \<open>Pages with a price element and with a feedback element of the given text.\<close>

definition price_page :: "string \<Rightarrow> document" where
  "price_page t = page [(''.x-price-primary span.ux-textspans'', [text_element t])]"

definition feedback_page :: "string \<Rightarrow> document" where
  "feedback_page t = page [(''.x-sellercard-atf__data--score'', [text_element t])]"

text \<open>A listing and an API state that cached the verdict 87 for it at time 1000.\<close>

definition example_listing :: listing_data where
  "example_listing =
     \<lparr>url = ''https://www.ebay.com/itm/123456789012'', itemId = Some ''123456789012'',
      title = ''Vintage camera'', price = Some (Num 12.99), sellerId = None,
      sellerName = [], sellerFeedback = None, imageUrls = [], description = [],
      condition = ''Unknown'', shipping = None, category = ''Unknown'',
      timestamp = 1000\<rparr>"

definition example_state :: "real api_state" where
  "example_state =
     \<lparr>cache = [''listing_123456789012'' \<mapsto> \<lparr>entry_verdict = 87, entry_timestamp = 1000\<rparr>],
      client_calls = 1\<rparr>"

section \<open>Properties\<close>

subsection \<open>Risk classifier\<close>

lemma classify_unfold:
  "classify s =
     (let c = clamp s in
      if 80 \<le> c then CRITICAL else if 60 \<le> c then HIGH
      else if 40 \<le> c then MEDIUM else if 20 \<le> c then LOW
      else if 0 \<le> c then SAFE else SAFE)"
  by (simp add: classify_def RISK_LEVELS_def Let_def)

lemma clamp_id: "0 \<le> s \<Longrightarrow> s \<le> 100 \<Longrightarrow> clamp s = s"
  by (simp add: clamp_def)

lemma classify_mono_aux: "s \<le> t \<Longrightarrow> severity (classify s) \<le> severity (classify t)"
proof -
  assume "s \<le> t"
  then have "clamp s \<le> clamp t"
    by (auto simp: clamp_def min_def max_def)
  then show ?thesis
    by (simp add: classify_unfold Let_def)
qed

text \<open>
  Claim C1. For every score in [0,100] the classifier returns the level of the band the
  score lies in, the bands having inclusive lower bounds 80, 60, 40, 20 and 0; the
  boundary values 0, 20, 40, 60, 80 and 100 map to Safe, Low, Medium, High, Critical and
  Critical; and a larger score never gets a less severe level.
\<close>

theorem classify_bands:
  assumes "0 \<le> s" and "s \<le> 100"
  shows "(classify s = CRITICAL \<longleftrightarrow> 80 \<le> s)
       \<and> (classify s = HIGH \<longleftrightarrow> 60 \<le> s \<and> s < 80)
       \<and> (classify s = MEDIUM \<longleftrightarrow> 40 \<le> s \<and> s < 60)
       \<and> (classify s = LOW \<longleftrightarrow> 20 \<le> s \<and> s < 40)
       \<and> (classify s = SAFE \<longleftrightarrow> 0 \<le> s \<and> s < 20)
       \<and> classify 0 = SAFE \<and> classify 20 = LOW \<and> classify 40 = MEDIUM
       \<and> classify 60 = HIGH \<and> classify 80 = CRITICAL \<and> classify 100 = CRITICAL
       \<and> (\<forall>t. s \<le> t \<and> t \<le> 100 \<longrightarrow> severity (classify s) \<le> severity (classify t))"
proof -
  have bands: "(classify s = CRITICAL \<longleftrightarrow> 80 \<le> s)
       \<and> (classify s = HIGH \<longleftrightarrow> 60 \<le> s \<and> s < 80)
       \<and> (classify s = MEDIUM \<longleftrightarrow> 40 \<le> s \<and> s < 60)
       \<and> (classify s = LOW \<longleftrightarrow> 20 \<le> s \<and> s < 40)
       \<and> (classify s = SAFE \<longleftrightarrow> 0 \<le> s \<and> s < 20)"
    using assms by (simp add: classify_unfold clamp_id)
  have points: "classify 0 = SAFE \<and> classify 20 = LOW \<and> classify 40 = MEDIUM
       \<and> classify 60 = HIGH \<and> classify 80 = CRITICAL \<and> classify 100 = CRITICAL"
    by (simp add: classify_unfold clamp_def)
  have mono: "\<forall>t. s \<le> t \<and> t \<le> 100 \<longrightarrow> severity (classify s) \<le> severity (classify t)"
    by (simp add: classify_mono_aux)
  from bands points mono show ?thesis by simp
qed

theorem classify_bands_witness:
  "classify 79.999 = HIGH \<and> classify 80 = CRITICAL
   \<and> severity (classify 79.999) \<le> severity (classify 80)"
proof -
  have a: "(0::real) \<le> 79.999" and b: "(79.999::real) \<le> 100" by simp_all
  from classify_bands [OF a b] show ?thesis by simp
qed

subsection \<open>Evaluating the extractors on example pages\<close>

lemmas page_simps = page_def querySelector_def or_else_def text_element_def
  image_element_def iframe_element_def priceEl_def feedbackEl_def shippingEl_def

lemmas str_simps = trim_def is_space_def toLowerCase_def to_lower_def
  is_digit_def digit_or_comma_def digit_or_dot_def replace_commas_def first_run_def

lemmas num_simps = parseFloat_def parseInt_def digits_val_def digit_val_def

subsection \<open>Images\<close>

lemma includes_str_sublist: "includes_str s sub \<longleftrightarrow> sublist sub s"
  by (induction s) (simp_all add: sublist_Cons_right)

lemma push_images_filter:
  "push_images imgs images = images @ filter real_image (map src imgs)"
  by (induction imgs arbitrary: images) (simp_all add: real_image_def)

lemma extractImages_filter_take:
  "extractImages d =
     take 5 (filter real_image (map src (querySelectorAll d ''.ux-image-carousel-item img'')))"
  by (simp add: extractImages_def push_images_filter)

lemma subseq_take_self: "subseq (take n xs) xs"
proof -
  have "subseq (take n xs) (take n xs @ drop n xs)"
    by (rule subseq_rev_drop_many) simp
  then show ?thesis by simp
qed

lemma carousel_page_images:
  "extractImages carousel_page =
     [''https://i.ebayimg.com/1.jpg'', ''https://i.ebayimg.com/3.jpg'',
      ''https://i.ebayimg.com/4.jpg'', ''https://i.ebayimg.com/5.jpg'',
      ''https://i.ebayimg.com/6.jpg'']"
  by (simp add: extractImages_def carousel_page_def page_simps)

text \<open>
  Claim C7. On every page the list of image references has at most 5 entries, none of
  them contains the placeholder marker, and the list is a subsequence of the \<^verbatim>\<open>src\<close>
  values of the carousel's image elements taken in document order.
\<close>

theorem extractImages_bounded_filtered:
  "length (extractImages d) \<le> 5
   \<and> (\<forall>u \<in> set (extractImages d). \<not> includes_str u ''placeholder'')
   \<and> subseq (extractImages d) (map src (querySelectorAll d ''.ux-image-carousel-item img''))"
proof -
  let ?all = "map src (querySelectorAll d ''.ux-image-carousel-item img'')"
  have a: "length (extractImages d) \<le> 5"
    by (simp add: extractImages_def)
  have b: "\<forall>u \<in> set (extractImages d). \<not> includes_str u ''placeholder''"
  proof
    fix u assume "u \<in> set (extractImages d)"
    then have "u \<in> set (filter real_image ?all)"
      unfolding extractImages_filter_take by (rule in_set_takeD)
    then show "\<not> includes_str u ''placeholder''"
      by (simp add: real_image_def)
  qed
  have "subseq (take 5 (filter real_image ?all)) (filter real_image ?all)"
    by (rule subseq_take_self)
  also have "subseq (filter real_image ?all) ?all"
    by (rule subseq_filter_left)
  finally have c: "subseq (extractImages d) ?all"
    by (simp add: extractImages_filter_take)
  from a b c show ?thesis by simp
qed

theorem extractImages_bounded_filtered_witness:
  "''https://i.ebayimg.com/3.jpg'' \<in> set (extractImages carousel_page)
   \<and> \<not> includes_str ''https://i.ebayimg.com/3.jpg'' ''placeholder''
   \<and> length (extractImages carousel_page) \<le> 5"
proof -
  have m: "''https://i.ebayimg.com/3.jpg'' \<in> set (extractImages carousel_page)"
    by (simp add: carousel_page_images)
  from extractImages_bounded_filtered [of carousel_page] m show ?thesis
    by blast
qed

text \<open>
  Claim C10. The placeholder filter runs over the whole carousel before the list is cut:
  the result is the first 5 entries of the filtered list. On the carousel of six images
  whose second is a placeholder, the sixth image is in the snapshot, while filtering the
  first five images would give four entries.
\<close>

theorem extractImages_filters_then_truncates:
  "extractImages d =
     take 5 (filter real_image (map src (querySelectorAll d ''.ux-image-carousel-item img'')))
   \<and> extractImages carousel_page =
       [''https://i.ebayimg.com/1.jpg'', ''https://i.ebayimg.com/3.jpg'',
        ''https://i.ebayimg.com/4.jpg'', ''https://i.ebayimg.com/5.jpg'',
        ''https://i.ebayimg.com/6.jpg'']
   \<and> filter real_image
         (take 5 (map src (querySelectorAll carousel_page ''.ux-image-carousel-item img''))) =
       [''https://i.ebayimg.com/1.jpg'', ''https://i.ebayimg.com/3.jpg'',
        ''https://i.ebayimg.com/4.jpg'', ''https://i.ebayimg.com/5.jpg'']"
proof -
  have "filter real_image
         (take 5 (map src (querySelectorAll carousel_page ''.ux-image-carousel-item img''))) =
       [''https://i.ebayimg.com/1.jpg'', ''https://i.ebayimg.com/3.jpg'',
        ''https://i.ebayimg.com/4.jpg'', ''https://i.ebayimg.com/5.jpg'']"
    by (simp add: carousel_page_def page_simps real_image_def)
  then show ?thesis
    by (simp only: extractImages_filter_take [symmetric] carousel_page_images simp_thms)
qed

subsection \<open>Shipping\<close>

lemma is_space_to_lower:
  assumes "is_space c"
  shows "to_lower c = c"
proof -
  from assms consider "c = CHR 0x09" | "c = CHR 0x0A" | "c = CHR 0x0B"
    | "c = CHR 0x0C" | "c = CHR 0x0D" | "c = CHR '' ''"
    unfolding is_space_def by fastforce
  then show ?thesis
    by cases (simp_all add: to_lower_def)
qed

lemma free_no_space:
  assumes "toLowerCase w = ''free''"
  shows "\<forall>c \<in> set w. \<not> is_space c"
proof
  fix c assume c: "c \<in> set w"
  then have "to_lower c \<in> set (toLowerCase w)" by (simp add: toLowerCase_def)
  then have l: "to_lower c \<in> set ''free''" by (simp only: assms)
  show "\<not> is_space c"
  proof
    assume sp: "is_space c"
    with l have "c \<in> set ''free''" by (simp only: is_space_to_lower)
    then have "\<not> is_space c" by (auto simp: is_space_def)
    with sp show False by simp
  qed
qed

lemma sublist_dropWhile_keep:
  assumes "sublist w s" and "w \<noteq> []" and "\<forall>c \<in> set w. \<not> P c"
  shows "sublist w (dropWhile P s)"
proof -
  from assms(1) obtain ps ss where s: "s = ps @ w @ ss" by (auto simp: sublist_def)
  from assms(2) obtain c w' where w: "w = c # w'" by (cases w) auto
  with assms(3) have c: "\<not> P c" by simp
  show ?thesis
  proof (cases "\<forall>x \<in> set ps. P x")
    case True
    then have "dropWhile P s = w @ ss"
      using c by (simp add: s w dropWhile_append2)
    then show ?thesis by simp
  next
    case False
    then have "dropWhile P s = dropWhile P ps @ w @ ss"
      by (auto simp: s dropWhile_append1)
    then show ?thesis by simp
  qed
qed

lemma sublist_trim:
  assumes "sublist w s" and "w \<noteq> []" and "\<forall>c \<in> set w. \<not> is_space c"
  shows "sublist w (trim s)"
proof -
  have "sublist w (dropWhile is_space s)"
    using assms by (rule sublist_dropWhile_keep)
  then have "sublist (rev w) (rev (dropWhile is_space s))"
    by (simp add: sublist_rev)
  then have "sublist (rev w) (dropWhile is_space (rev (dropWhile is_space s)))"
    using assms(2,3) by (intro sublist_dropWhile_keep) simp_all
  then have "sublist (rev (rev w)) (rev (dropWhile is_space (rev (dropWhile is_space s))))"
    by (simp only: sublist_rev)
  then show ?thesis by (simp add: trim_def)
qed

lemma includes_free_any_case:
  assumes "toLowerCase w = ''free''"
  shows "includes_str (toLowerCase (trim (pre @ w @ post))) ''free''"
proof -
  from assms have ne: "w \<noteq> []" by (auto simp: toLowerCase_def)
  have "sublist w (pre @ w @ post)" by simp
  then have "sublist w (trim (pre @ w @ post))"
    using ne free_no_space [OF assms] by (rule sublist_trim)
  then obtain ps ss where "trim (pre @ w @ post) = ps @ w @ ss"
    by (auto simp: sublist_def)
  then have "toLowerCase (trim (pre @ w @ post)) = toLowerCase ps @ ''free'' @ toLowerCase ss"
    using assms by (simp add: toLowerCase_def)
  then have "sublist ''free'' (toLowerCase (trim (pre @ w @ post)))"
    by (simp only: sublist_appendI)
  then show ?thesis by (simp only: includes_str_sublist)
qed

text \<open>
  Claim C9. The free-shipping test comes before the numeric pattern: when the text of the
  shipping element contains the word free in any letter case (a piece \<open>w\<close> whose
  lower-case form is \<^verbatim>\<open>free\<close>), the extractor returns 0, whatever else the text holds.
\<close>

theorem extractShipping_free_first:
  assumes "shippingEl d = Some el"
    and "textContent el = pre @ w @ post"
    and "toLowerCase w = ''free''"
  shows "extractShipping d = Some (Num 0)"
  using assms(1,2) includes_free_any_case [OF assms(3)]
  by (simp add: extractShipping_def)

theorem extractShipping_free_first_witness:
  "extractShipping (shipping_page ''Free shipping on orders over $50'') = Some (Num 0)"
proof -
  have a: "shippingEl (shipping_page ''Free shipping on orders over $50'')
           = Some (text_element ''Free shipping on orders over $50'')"
    by (simp add: shipping_page_def page_def querySelector_def shippingEl_def)
  have b: "textContent (text_element ''Free shipping on orders over $50'')
           = [] @ ''Free'' @ '' shipping on orders over $50''"
    by (simp add: text_element_def)
  have c: "toLowerCase ''Free'' = ''free''"
    by (simp add: toLowerCase_def to_lower_def)
  from extractShipping_free_first [OF a b c] show ?thesis .
qed

text \<open>The three outcomes on the texts the specification names.\<close>

lemma extractShipping_examples:
  "extractShipping (shipping_page ''Free'') = Some (Num 0)
   \<and> extractShipping (shipping_page ''$4.99'') = Some (Num 4.99)
   \<and> extractShipping no_shipping_page = None"
  by (simp add: extractShipping_def shipping_page_def no_shipping_page_def page_simps
      match_shipping_def str_simps num_simps)

text \<open>
  Claim C3. Shipping extraction is to have three outcomes: 0 for free shipping, the
  stated amount, and \<^verbatim>\<open>null\<close> for an absent or unparsable element. A text with a full
  stop and no digit is unparsable, yet the pattern \<^verbatim>\<open>/[\d.]+/\<close> matches the full stop
  alone and \<^verbatim>\<open>parseFloat\<close> of it is \<^verbatim>\<open>NaN\<close>: a fourth outcome.
\<close>

theorem extractShipping_dot_only_is_NaN:
  "extractShipping (shipping_page ''Does not ship to Germany. See details'') = Some NaN"
  by (simp add: extractShipping_def shipping_page_def page_simps match_shipping_def
      str_simps num_simps)

subsection \<open>The snapshot as a whole\<close>

text \<open>
  \<^verbatim>\<open>extractListingData\<close> returns a snapshot exactly when the description frame is
  missing or its body can be read.
\<close>

lemma extractListingData_completes_iff:
  "(\<exists>s. extractListingData d = Inr s) \<longleftrightarrow>
   (case querySelector d ''.x-item-description iframe'' of
      None \<Rightarrow> True
    | Some descEl \<Rightarrow> (\<exists>t. contentWindow descEl = Body t))"
  by (auto simp: extractListingData_def extractDescription_def
      split: option.splits frame.splits sum.splits)

text \<open>
  Taking the price elements out of a page changes the price to \<^verbatim>\<open>null\<close> and no other
  field: every extractor reads its own selectors only.
\<close>

lemma without_price_fields:
  "extractPrice (without_price d) = None"
  "extractItemId (without_price d) = extractItemId d"
  "extractTitle (without_price d) = extractTitle d"
  "extractSellerId (without_price d) = extractSellerId d"
  "extractSellerName (without_price d) = extractSellerName d"
  "extractSellerFeedback (without_price d) = extractSellerFeedback d"
  "extractImages (without_price d) = extractImages d"
  "extractDescription (without_price d) = extractDescription d"
  "extractCondition (without_price d) = extractCondition d"
  "extractShipping (without_price d) = extractShipping d"
  "extractCategory (without_price d) = extractCategory d"
  by (simp_all add: without_price_def extractPrice_def extractItemId_def extractTitle_def
      extractSellerId_def extractSellerName_def extractSellerFeedback_def extractImages_def
      extractDescription_def extractCondition_def extractShipping_def extractCategory_def
      priceEl_def feedbackEl_def shippingEl_def querySelector_def or_else_def
      seller_link_selector_def)

lemma extractListingData_without_price:
  "extractListingData (without_price d) =
     map_sum id (\<lambda>s. s\<lparr>price := None\<rparr>) (extractListingData d)"
  by (simp add: extractListingData_def without_price_fields split: sum.splits)
    (simp add: without_price_def)

text \<open>
  Claim C4. No extractor is to throw. \<^verbatim>\<open>extractDescription\<close> reads the inner document
  of the description frame without a guard; on a page whose frame comes from another
  origin the read throws, and \<^verbatim>\<open>extractListingData\<close> ends with the exception instead
  of a snapshot.
\<close>

theorem extractListingData_throws_on_cross_origin_frame:
  "extractDescription cross_origin_page = Inl SecurityError
   \<and> extractListingData cross_origin_page = Inl SecurityError"
  by (simp add: extractListingData_def extractDescription_def cross_origin_page_def page_simps)

lemma price_on_request_price: "extractPrice price_on_request_page = Some NaN"
  by (simp add: extractPrice_def price_on_request_page_def page_simps match_price_def
      str_simps num_simps)

lemma price_on_request_description: "extractDescription price_on_request_page = Inr []"
  by (simp add: extractDescription_def price_on_request_page_def page_simps)

text \<open>
  Claim C2. A field whose source element is missing or unparsable is to come out as
  \<^verbatim>\<open>null\<close>. A price text with a comma and no digit is unparsable, yet the pattern
  \<^verbatim>\<open>/[\d,]+\.?\d*/\<close> matches the comma alone, the comma is removed, and
  \<^verbatim>\<open>parseFloat\<close> of the empty string is \<^verbatim>\<open>NaN\<close>, which the snapshot then carries
  as its price.
\<close>

theorem extractPrice_comma_only_is_NaN:
  "extractPrice price_on_request_page = Some NaN
   \<and> map_sum id price (extractListingData price_on_request_page) = Inr (Some NaN)"
  by (simp add: extractListingData_def price_on_request_price price_on_request_description)

subsection \<open>Configuration\<close>

lemma CACHE_DURATION_value: "CACHE_DURATION = 300000"
  by (simp add: CACHE_DURATION_def config_get_def TRUSTGUARD_CONFIG_def)

text \<open>
  Claim C8, as stated: every recognised option has a default, the request timeout being
  250. The configuration object holds no entry with the value 250 and no request
  timeout.
\<close>

theorem config_has_no_request_timeout:
  "ConfNum 250 \<notin> set (map snd TRUSTGUARD_CONFIG)
   \<and> config_get ''requestTimeoutMs'' = None"
  by (simp add: TRUSTGUARD_CONFIG_def config_get_def)

text \<open>
  Claim C8, amended. The configuration object has exactly the five keys of the source;
  the cache duration is 300000 ms (5 minutes), the debounce delay 500 ms and the number of
  retries 3. The limit of 5 images is not an option: it is written in
  \<^verbatim>\<open>extractImages\<close>, and holds on every page.
\<close>

theorem config_defaults:
  "map fst TRUSTGUARD_CONFIG =
     [''API_URL'', ''CACHE_DURATION'', ''DEBOUNCE_DELAY'', ''MAX_RETRIES'', ''OVERLAY_Z_INDEX'']
   \<and> config_get ''CACHE_DURATION'' = Some (ConfNum 300000)
   \<and> config_get ''DEBOUNCE_DELAY'' = Some (ConfNum 500)
   \<and> config_get ''MAX_RETRIES'' = Some (ConfNum 3)
   \<and> CACHE_DURATION = 5 * 60 * 1000
   \<and> length (extractImages d) \<le> 5"
  by (simp add: TRUSTGUARD_CONFIG_def config_get_def CACHE_DURATION_def extractImages_def)

subsection \<open>Cache freshness\<close>

text \<open>
  Claim C6. For a key with a stored entry: when the entry's age is at most the cache
  duration, \<^verbatim>\<open>analyzeList\<close> returns the stored verdict and leaves the state, call
  count included, as it was; when the age exceeds it, the lookup misses although the
  entry is still stored, the result is the client's, and the call count grows by one.
  Nothing but a successful call changes the cache: after a failed call it is unchanged.
\<close>

theorem cache_ttl_decided_on_read:
  assumes "cache st (cacheKey listingData) = Some cached"
  shows "(now - entry_timestamp cached \<le> CACHE_DURATION \<longrightarrow>
            analyzeList now client listingData st = (Inr (entry_verdict cached), st))
       \<and> (now - entry_timestamp cached > CACHE_DURATION \<longrightarrow>
            cache_get now (cache st) (cacheKey listingData) = None
            \<and> fst (analyzeList now client listingData st) = client listingData
            \<and> client_calls (snd (analyzeList now client listingData st)) = client_calls st + 1
            \<and> (\<forall>f. client listingData = Inl f \<longrightarrow>
                  cache (snd (analyzeList now client listingData st)) = cache st))"
  using assms
  by (auto simp: analyzeList_def cache_get_def split: sum.splits)

theorem cache_ttl_decided_on_read_witness:
  "analyzeList 301000 (\<lambda>l. Inr 12 :: string + real) example_listing example_state
     = (Inr 87, example_state)
   \<and> client_calls (snd (analyzeList 301001 (\<lambda>l. Inr 12 :: string + real)
                           example_listing example_state)) = 2
   \<and> fst (analyzeList 301001 (\<lambda>l. Inr 12 :: string + real)
             example_listing example_state) = Inr 12"
proof -
  have k: "cache example_state (cacheKey example_listing)
           = Some \<lparr>entry_verdict = 87, entry_timestamp = 1000\<rparr>"
    by (simp add: example_state_def example_listing_def cacheKey_def)
  have c: "client_calls example_state = 1"
    by (simp add: example_state_def)
  from cache_ttl_decided_on_read [OF k, of 301000 "\<lambda>l. Inr 12 :: string + real"]
       cache_ttl_decided_on_read [OF k, of 301001 "\<lambda>l. Inr 12 :: string + real"] c
  show ?thesis
    by (simp add: CACHE_DURATION_value)
qed

subsection \<open>Numeric fields\<close>

text \<open>Runs of a character class at the front of a list.\<close>



lemma takeWhile_stop:
  "ys = [] \<or> \<not> P (hd ys) \<Longrightarrow> takeWhile P ys = []"
  by (cases ys) auto

lemma dropWhile_stop:
  "ys = [] \<or> \<not> P (hd ys) \<Longrightarrow> dropWhile P ys = ys"
  by (cases ys) auto

lemma none_stop: "\<forall>w \<in> set ws. \<not> P w \<Longrightarrow> ws = [] \<or> \<not> P (hd ws)"
  by (cases ws) auto

lemma takeWhile_append_none:
  "\<forall>w \<in> set ws. \<not> P w \<Longrightarrow> takeWhile P (xs @ ws) = takeWhile P xs"
  by (induction xs) (simp_all add: takeWhile_stop none_stop)

lemma takeWhile_run:
  "\<forall>x \<in> set xs. P x \<Longrightarrow> ys = [] \<or> \<not> P (hd ys) \<Longrightarrow> takeWhile P (xs @ ys) = xs"
  by (simp add: takeWhile_append2 takeWhile_stop)

lemma dropWhile_run:
  "\<forall>x \<in> set xs. P x \<Longrightarrow> ys = [] \<or> \<not> P (hd ys) \<Longrightarrow> dropWhile P (xs @ ys) = ys"
  by (simp add: dropWhile_append2 dropWhile_stop)

lemma dropWhile_append_all:
  "\<forall>w \<in> set ws. Q w \<Longrightarrow>
   dropWhile Q (xs @ ws) = (if \<forall>x \<in> set xs. Q x then [] else dropWhile Q xs @ ws)"
  by (induction xs) auto

lemma dropWhile_append_none:
  "\<forall>w \<in> set ws. \<not> P w \<Longrightarrow> dropWhile P (xs @ ws) = dropWhile P xs @ ws"
  by (induction xs) (simp_all add: dropWhile_stop none_stop)

lemma is_space_not_numeric: "is_space c \<Longrightarrow> \<not> numeric_char c"
  by (auto simp: is_space_def numeric_char_def is_digit_def)

lemma dropWhile_dropWhile_skip:
  "(\<And>c. P c \<Longrightarrow> Q c) \<Longrightarrow> dropWhile Q (dropWhile P s) = dropWhile Q s"
  by (induction s) auto

lemma trim_decomp:
  "\<exists>ws. (\<forall>w \<in> set ws. is_space w) \<and> dropWhile is_space s = trim s @ ws"
proof -
  let ?v = "dropWhile is_space s"
  have "?v = trim s @ rev (takeWhile is_space (rev ?v))"
    unfolding trim_def by (metis rev_append rev_rev_ident takeWhile_dropWhile_id)
  moreover have "\<forall>w \<in> set (rev (takeWhile is_space (rev ?v))). is_space w"
    by (auto dest: set_takeWhileD)
  ultimately show ?thesis by blast
qed




lemma frac_tail_append:
  assumes "\<forall>w \<in> set ws. \<not> is_digit w" and "\<forall>w \<in> set ws. w \<noteq> CHR ''.''"
  shows "(case d @ ws of [] \<Rightarrow> []
          | c # r \<Rightarrow> if c = CHR ''.'' then c # takeWhile is_digit r else [])
       = (case d of [] \<Rightarrow> []
          | c # r \<Rightarrow> if c = CHR ''.'' then c # takeWhile is_digit r else [])"
proof (cases d)
  case Nil
  with assms(2) show ?thesis by (cases ws) simp_all
next
  case (Cons x r)
  with assms(1) show ?thesis by (simp add: takeWhile_append_none)
qed

lemma match_price_append_spaces:
  assumes "\<forall>w \<in> set ws. is_space w"
  shows "match_price (u @ ws) = match_price u"
proof -
  from assms have n: "\<forall>w \<in> set ws. \<not> numeric_char w"
    by (simp add: is_space_not_numeric)
  then have a: "\<forall>w \<in> set ws. \<not> digit_or_comma w" and b: "\<forall>w \<in> set ws. \<not> is_digit w"
    and c: "\<forall>w \<in> set ws. w \<noteq> CHR ''.''"
    by (auto simp: numeric_char_def digit_or_comma_def)
  show ?thesis
  proof (cases "\<forall>x \<in> set u. \<not> digit_or_comma x")
    case True
    with a show ?thesis
      by (simp add: match_price_def dropWhile_append_all)
  next
    case False
    let ?t = "dropWhile (\<lambda>c. \<not> digit_or_comma c) u"
    from False have t: "dropWhile (\<lambda>c. \<not> digit_or_comma c) (u @ ws) = ?t @ ws" and ne: "?t \<noteq> []"
      using a by (auto simp: dropWhile_append_all)
    have tw: "takeWhile digit_or_comma (?t @ ws) = takeWhile digit_or_comma ?t"
      using a by (rule takeWhile_append_none)
    have dw: "dropWhile digit_or_comma (?t @ ws) = dropWhile digit_or_comma ?t @ ws"
      using a by (rule dropWhile_append_none)
    have "match_price (u @ ws) = Some (takeWhile digit_or_comma (?t @ ws) @
                 (case dropWhile digit_or_comma (?t @ ws) of
                    [] \<Rightarrow> []
                  | c # r \<Rightarrow> if c = CHR ''.'' then c # takeWhile is_digit r else []))"
      unfolding match_price_def Let_def t using ne by simp
    also have "\<dots> = match_price u"
      unfolding match_price_def Let_def tw dw frac_tail_append [OF b c] using ne by simp
    finally show ?thesis .
  qed
qed

lemma match_price_trim: "match_price (trim s) = match_price s"
proof -
  obtain ws where ws: "\<forall>w \<in> set ws. is_space w" "dropWhile is_space s = trim s @ ws"
    using trim_decomp by blast
  have "match_price (trim s) = match_price (trim s @ ws)"
    using ws(1) by (simp add: match_price_append_spaces)
  also have "\<dots> = match_price (dropWhile is_space s)"
    by (simp only: ws(2))
  also have "\<dots> = match_price s"
  proof -
    have "\<And>c. is_space c \<Longrightarrow> \<not> digit_or_comma c"
      using is_space_not_numeric by (auto simp: numeric_char_def digit_or_comma_def)
    then have "dropWhile (\<lambda>c. \<not> digit_or_comma c) (dropWhile is_space s)
             = dropWhile (\<lambda>c. \<not> digit_or_comma c) s"
      by (rule dropWhile_dropWhile_skip)
    then show ?thesis by (simp add: match_price_def)
  qed
  finally show ?thesis .
qed



lemma first_run_append_none:
  assumes "\<forall>w \<in> set ws. \<not> P w"
  shows "first_run P (u @ ws) = first_run P u"
proof (cases "\<forall>x \<in> set u. \<not> P x")
  case True
  with assms show ?thesis
    by (simp add: first_run_def dropWhile_append_all)
next
  case False
  let ?t = "dropWhile (\<lambda>c. \<not> P c) u"
  from False have t: "dropWhile (\<lambda>c. \<not> P c) (u @ ws) = ?t @ ws" and ne: "?t \<noteq> []"
    using assms by (auto simp: dropWhile_append_all)
  have tw: "takeWhile P (?t @ ws) = takeWhile P ?t"
    using assms by (rule takeWhile_append_none)
  show ?thesis
    unfolding first_run_def Let_def t tw using ne by simp
qed

lemma first_run_trim:
  assumes "\<And>c. is_space c \<Longrightarrow> \<not> P c"
  shows "first_run P (trim s) = first_run P s"
proof -
  obtain ws where ws: "\<forall>w \<in> set ws. is_space w" "dropWhile is_space s = trim s @ ws"
    using trim_decomp by blast
  from ws(1) assms have "\<forall>w \<in> set ws. \<not> P w" by blast
  then have "first_run P (trim s) = first_run P (trim s @ ws)"
    by (simp add: first_run_append_none)
  also have "\<dots> = first_run P (dropWhile is_space s)"
    by (simp only: ws(2))
  also have "\<dots> = first_run P s"
  proof -
    have "dropWhile (\<lambda>c. \<not> P c) (dropWhile is_space s) = dropWhile (\<lambda>c. \<not> P c) s"
      using assms by (rule dropWhile_dropWhile_skip)
    then show ?thesis by (simp add: first_run_def)
  qed
  finally show ?thesis .
qed

lemma match_feedback_trim: "match_feedback (trim s) = match_feedback s"
  unfolding match_feedback_def
  by (rule first_run_trim) (use is_space_not_numeric in \<open>auto simp: numeric_char_def digit_or_comma_def\<close>)

lemma match_shipping_trim: "match_shipping (trim s) = match_shipping s"
  unfolding match_shipping_def
  by (rule first_run_trim) (use is_space_not_numeric in \<open>auto simp: numeric_char_def digit_or_dot_def\<close>)

lemma first_run_none: "\<forall>c \<in> set s. \<not> P c \<Longrightarrow> first_run P s = None"
  by (simp add: first_run_def)

lemma match_price_none: "\<forall>c \<in> set s. \<not> digit_or_comma c \<Longrightarrow> match_price s = None"
  by (simp add: match_price_def)

lemma first_run_form:
  assumes "\<forall>c \<in> set pre. \<not> P c" and "r \<noteq> []" and "\<forall>c \<in> set r. P c"
    and "post = [] \<or> \<not> P (hd post)"
  shows "first_run P (pre @ r @ post) = Some r"
proof -
  from assms(2,3) have hd: "P (hd r)" by (cases r) auto
  have d: "dropWhile (\<lambda>c. \<not> P c) (pre @ r @ post) = r @ post"
    using assms(1,2) hd by (cases r) (simp_all add: dropWhile_append2)
  have "takeWhile P (r @ post) = r"
    using assms(3,4) by (rule takeWhile_run)
  with d assms(2) show ?thesis
    by (simp add: first_run_def)
qed

lemma match_price_int:
  assumes "\<forall>c \<in> set pre. \<not> digit_or_comma c" and "ip \<noteq> []" and "\<forall>c \<in> set ip. digit_or_comma c"
    and "post = [] \<or> (\<not> digit_or_comma (hd post) \<and> hd post \<noteq> CHR ''.'')"
  shows "match_price (pre @ ip @ post) = Some ip"
proof -
  from assms(2,3) have hd: "digit_or_comma (hd ip)" by (cases ip) auto
  have d: "dropWhile (\<lambda>c. \<not> digit_or_comma c) (pre @ ip @ post) = ip @ post"
    using assms(1,2) hd by (cases ip) (simp_all add: dropWhile_append2)
  from assms(4) have stop: "post = [] \<or> \<not> digit_or_comma (hd post)" by blast
  have tw: "takeWhile digit_or_comma (ip @ post) = ip"
    using assms(3) stop by (rule takeWhile_run)
  have dw: "dropWhile digit_or_comma (ip @ post) = post"
    using assms(3) stop by (rule dropWhile_run)
  have tl: "(case post of [] \<Rightarrow> []
             | c # r \<Rightarrow> if c = CHR ''.'' then c # takeWhile is_digit r else []) = []"
    using assms(4) by (cases post) auto
  show ?thesis
    unfolding match_price_def Let_def d tw dw tl using assms(2) by simp
qed

lemma match_price_frac:
  assumes "\<forall>c \<in> set pre. \<not> digit_or_comma c" and "ip \<noteq> []" and "\<forall>c \<in> set ip. digit_or_comma c"
    and "\<forall>c \<in> set fp. is_digit c"
    and "post = [] \<or> \<not> is_digit (hd post)"
  shows "match_price (pre @ ip @ CHR ''.'' # fp @ post) = Some (ip @ CHR ''.'' # fp)"
proof -
  from assms(2,3) have hd: "digit_or_comma (hd ip)" by (cases ip) auto
  have d: "dropWhile (\<lambda>c. \<not> digit_or_comma c) (pre @ ip @ CHR ''.'' # fp @ post)
           = ip @ CHR ''.'' # fp @ post"
    using assms(1,2) hd by (cases ip) (simp_all add: dropWhile_append2)
  have stop: "CHR ''.'' # fp @ post = [] \<or> \<not> digit_or_comma (hd (CHR ''.'' # fp @ post))"
    by (simp add: digit_or_comma_def is_digit_def)
  have tw: "takeWhile digit_or_comma (ip @ CHR ''.'' # fp @ post) = ip"
    using assms(3) stop by (rule takeWhile_run)
  have dw: "dropWhile digit_or_comma (ip @ CHR ''.'' # fp @ post) = CHR ''.'' # fp @ post"
    using assms(3) stop by (rule dropWhile_run)
  have fr: "takeWhile is_digit (fp @ post) = fp"
    using assms(4,5) by (rule takeWhile_run)
  show ?thesis
    unfolding match_price_def Let_def d tw dw using assms(2) by (simp add: fr)
qed




lemma is_digit_not_comma: "is_digit c \<Longrightarrow> c \<noteq> CHR '',''"
  by (auto simp: is_digit_def)

lemma replace_commas_digits:
  "\<forall>c \<in> set ip. digit_or_comma c \<Longrightarrow> \<forall>c \<in> set (replace_commas ip). is_digit c"
  by (auto simp: replace_commas_def digit_or_comma_def)

lemma replace_commas_nonempty:
  "\<exists>c \<in> set ip. is_digit c \<Longrightarrow> replace_commas ip \<noteq> []"
  by (auto simp: replace_commas_def filter_empty_conv dest: is_digit_not_comma)

lemma replace_commas_frac:
  "\<forall>c \<in> set fp. is_digit c \<Longrightarrow>
   replace_commas (ip @ CHR ''.'' # fp) = replace_commas ip @ CHR ''.'' # fp"
  by (auto simp: replace_commas_def filter_id_conv dest: is_digit_not_comma)

lemma digits_val_Nil: "digits_val [] = 0"
  by (simp add: digits_val_def)

lemma parseInt_digits:
  assumes "ds \<noteq> []" and "\<forall>c \<in> set ds. is_digit c"
  shows "parseInt ds = Num (of_nat (digits_val ds))"
proof -
  have tw: "takeWhile is_digit ds = ds"
    using assms(2) by (simp add: takeWhile_eq_all_conv)
  show ?thesis
    unfolding parseInt_def Let_def tw using assms(1) by simp
qed

lemma parseFloat_int:
  assumes "ds \<noteq> []" and "\<forall>c \<in> set ds. is_digit c"
  shows "parseFloat ds = Num (of_nat (digits_val ds))"
proof -
  have tw: "takeWhile is_digit ds = ds" and dw: "dropWhile is_digit ds = []"
    using assms(2) by (simp_all add: takeWhile_eq_all_conv)
  show ?thesis
    unfolding parseFloat_def Let_def tw dw using assms(1)
    by (simp add: digits_val_Nil)
qed

lemma parseFloat_frac:
  assumes "ds \<noteq> []" and "\<forall>c \<in> set ds. is_digit c" and "\<forall>c \<in> set fp. is_digit c"
  shows "parseFloat (ds @ CHR ''.'' # fp)
         = Num (of_nat (digits_val ds) + of_nat (digits_val fp) / 10 ^ length fp)"
proof -
  have stop: "CHR ''.'' # fp = [] \<or> \<not> is_digit (hd (CHR ''.'' # fp))"
    by (simp add: is_digit_def)
  have tw: "takeWhile is_digit (ds @ CHR ''.'' # fp) = ds"
    using assms(2) stop by (rule takeWhile_run)
  have dw: "dropWhile is_digit (ds @ CHR ''.'' # fp) = CHR ''.'' # fp"
    using assms(2) stop by (rule dropWhile_run)
  have fr: "takeWhile is_digit fp = fp"
    using assms(3) by (simp add: takeWhile_eq_all_conv)
  show ?thesis
    unfolding parseFloat_def Let_def tw dw using assms(1)
    by (simp add: fr)
qed

lemma trim_sublist: "sublist (trim s) s"
proof -
  obtain ws where "dropWhile is_space s = trim s @ ws"
    using trim_decomp by blast
  then have "s = takeWhile is_space s @ trim s @ ws"
    by (metis takeWhile_dropWhile_id)
  then show ?thesis
    by (metis sublist_appendI)
qed

lemma includes_lower_trim:
  "includes_str (toLowerCase (trim s)) w \<Longrightarrow> includes_str (toLowerCase s) w"
proof -
  assume "includes_str (toLowerCase (trim s)) w"
  then have "sublist w (map to_lower (trim s))"
    by (simp add: includes_str_sublist toLowerCase_def)
  moreover have "sublist (map to_lower (trim s)) (map to_lower s)"
  proof -
    obtain ps ss where "s = ps @ trim s @ ss"
      using trim_sublist [of s] by (auto simp: sublist_def)
    then have "map to_lower s = map to_lower ps @ map to_lower (trim s) @ map to_lower ss"
      by (metis map_append)
    then show ?thesis
      by (metis sublist_appendI)
  qed
  ultimately have "sublist w (map to_lower s)"
    by (rule sublist_order.order_trans)
  then show ?thesis
    by (simp add: includes_str_sublist toLowerCase_def)
qed




lemma numeric_char_split:
  "\<not> numeric_char c \<Longrightarrow> \<not> digit_or_comma c \<and> \<not> digit_or_dot c \<and> \<not> is_digit c \<and> c \<noteq> CHR ''.''"
  by (simp add: numeric_char_def digit_or_comma_def digit_or_dot_def)

lemma extractPrice_text:
  "priceEl d = Some el \<Longrightarrow>
   extractPrice d = map_option (\<lambda>m. parseFloat (replace_commas m)) (match_price (textContent el))"
  by (simp add: extractPrice_def match_price_trim split: option.splits)

lemma extractSellerFeedback_text:
  "feedbackEl d = Some el \<Longrightarrow>
   extractSellerFeedback d
     = map_option (\<lambda>m. parseInt (replace_commas m)) (match_feedback (textContent el))"
  by (simp add: extractSellerFeedback_def match_feedback_trim split: option.splits)

lemma extractShipping_text:
  assumes "shippingEl d = Some el" and "\<not> includes_str (toLowerCase (textContent el)) ''free''"
  shows "extractShipping d = map_option parseFloat (match_shipping (textContent el))"
proof -
  from assms(2) have "\<not> includes_str (toLowerCase (trim (textContent el))) ''free''"
    using includes_lower_trim by blast
  with assms(1) show ?thesis
    by (simp add: extractShipping_def match_shipping_trim split: option.splits)
qed

text \<open>
  A run of at most 15 digits reads as an integer below \<open>2 ^ 53\<close>: a double itself, so
  no rounding takes place when the code parses it.
\<close>

lemma digit_val_le_9:
  assumes "is_digit c"
  shows "digit_val c \<le> 9"
proof -
  from assms consider "c = CHR ''0''" | "c = CHR ''1''" | "c = CHR ''2''" | "c = CHR ''3''"
    | "c = CHR ''4''" | "c = CHR ''5''" | "c = CHR ''6''" | "c = CHR ''7''"
    | "c = CHR ''8''" | "c = CHR ''9''"
    unfolding is_digit_def by fastforce
  then show ?thesis
    by cases (simp_all add: digit_val_def)
qed

lemma foldl_digits_bound:
  "\<forall>c \<in> set ds. is_digit c \<Longrightarrow>
   foldl (\<lambda>acc c. 10 * acc + digit_val c) a ds < (a + 1) * 10 ^ length ds"
proof (induction ds arbitrary: a)
  case Nil
  then show ?case by simp
next
  case (Cons c ds)
  from Cons.prems have "digit_val c \<le> 9" by (simp add: digit_val_le_9)
  then have "10 * a + digit_val c + 1 \<le> (a + 1) * 10" by simp
  then have le: "(10 * a + digit_val c + 1) * 10 ^ length ds \<le> (a + 1) * 10 * 10 ^ length ds"
    by (rule mult_le_mono1)
  have "foldl (\<lambda>acc c. 10 * acc + digit_val c) (10 * a + digit_val c) ds
        < (10 * a + digit_val c + 1) * 10 ^ length ds"
    using Cons.prems by (intro Cons.IH) simp
  also note le
  finally show ?case by (simp add: algebra_simps)
qed

lemma digits_val_bound:
  "\<forall>c \<in> set ds. is_digit c \<Longrightarrow> digits_val ds < 10 ^ length ds"
  using foldl_digits_bound [of ds 0] by (simp add: digits_val_def)

lemma digits_val_exact_integer:
  assumes "\<forall>c \<in> set ds. is_digit c" and "length ds \<le> 15"
  shows "digits_val ds < 2 ^ 53"
proof -
  have "digits_val ds < 10 ^ length ds"
    using assms(1) by (rule digits_val_bound)
  also have "(10::nat) ^ length ds \<le> 10 ^ 15"
    using assms(2) by (intro power_increasing) simp_all
  also have "(10::nat) ^ 15 < 2 ^ 53" by simp
  finally show ?thesis .
qed

text \<open>
  Claim C5, amended. Let the text of the element be a part \<open>pre\<close> without digits, commas
  and dots, then a numeric run, then a part \<open>post\<close> that is empty or begins with a
  character other than a digit, comma or dot. For the price and the feedback count the
  run is \<open>ip\<close>, digits and thousands separators with a digit among them, and the result
  is the number \<open>ip\<close> reads as once the commas are dropped; the price takes a decimal
  point and digits \<open>fp\<close> after it. For the shipping cost (text without the word free)
  the run is digits \<open>ds\<close>, with an optional decimal point and digits. What stands
  around the run is ignored. A text without any digit, comma or dot gives \<^verbatim>\<open>null\<close>.
  The run has at most 15 digits in all, those after the decimal point included: up to
  there the decimal reading names the double the code returns, beyond it the code rounds.
\<close>

theorem numeric_extractors_read_first_run:
  assumes pre: "\<forall>c \<in> set pre. \<not> numeric_char c"
    and ip: "\<forall>c \<in> set ip. digit_or_comma c" "\<exists>c \<in> set ip. is_digit c"
    and ds: "ds \<noteq> []" "\<forall>c \<in> set ds. is_digit c"
    and fp: "\<forall>c \<in> set fp. is_digit c"
    and post: "post = [] \<or> \<not> numeric_char (hd post)"
    and ip_digits: "length (replace_commas ip) + length fp \<le> 15"
    and ds_digits: "length ds + length fp \<le> 15"
  shows "(priceEl d = Some el \<and> textContent el = pre @ ip @ post \<longrightarrow>
            extractPrice d = Some (Num (of_nat (digits_val (replace_commas ip)))))
       \<and> (priceEl d = Some el \<and> textContent el = pre @ ip @ ''.'' @ fp @ post \<longrightarrow>
            extractPrice d = Some (Num (of_nat (digits_val (replace_commas ip))
                                        + of_nat (digits_val fp) / 10 ^ length fp)))
       \<and> (feedbackEl d = Some el \<and> textContent el = pre @ ip @ post \<longrightarrow>
            extractSellerFeedback d = Some (Num (of_nat (digits_val (replace_commas ip)))))
       \<and> (shippingEl d = Some el \<and> textContent el = pre @ ds @ post
            \<and> \<not> includes_str (toLowerCase (textContent el)) ''free'' \<longrightarrow>
            extractShipping d = Some (Num (of_nat (digits_val ds))))
       \<and> (shippingEl d = Some el \<and> textContent el = pre @ ds @ ''.'' @ fp @ post
            \<and> \<not> includes_str (toLowerCase (textContent el)) ''free'' \<longrightarrow>
            extractShipping d = Some (Num (of_nat (digits_val ds)
                                           + of_nat (digits_val fp) / 10 ^ length fp)))
       \<and> (priceEl d = Some el \<and> textContent el = pre \<longrightarrow> extractPrice d = None)
       \<and> (feedbackEl d = Some el \<and> textContent el = pre \<longrightarrow> extractSellerFeedback d = None)
       \<and> (shippingEl d = Some el \<and> textContent el = pre
            \<and> \<not> includes_str (toLowerCase (textContent el)) ''free'' \<longrightarrow>
            extractShipping d = None)"
proof -
  from pre have pre_dc: "\<forall>c \<in> set pre. \<not> digit_or_comma c"
    and pre_dd: "\<forall>c \<in> set pre. \<not> digit_or_dot c"
    by (simp_all add: numeric_char_split)
  from post have post_dc: "post = [] \<or> (\<not> digit_or_comma (hd post) \<and> hd post \<noteq> CHR ''.'')"
    and post_dc': "post = [] \<or> \<not> digit_or_comma (hd post)"
    and post_dd: "post = [] \<or> \<not> digit_or_dot (hd post)"
    and post_d: "post = [] \<or> \<not> is_digit (hd post)"
    using numeric_char_split by blast+
  from ip(2) have ip_ne: "ip \<noteq> []" by auto
  have rc_ne: "replace_commas ip \<noteq> []"
    using ip(2) by (rule replace_commas_nonempty)
  have rc_d: "\<forall>c \<in> set (replace_commas ip). is_digit c"
    using ip(1) by (rule replace_commas_digits)
  have ds_dd: "\<forall>c \<in> set ds. digit_or_dot c"
    using ds(2) by (simp add: digit_or_dot_def)
  have dsf_dd: "\<forall>c \<in> set (ds @ CHR ''.'' # fp). digit_or_dot c"
    using ds(2) fp by (auto simp: digit_or_dot_def)

  have p1: "match_price (pre @ ip @ post) = Some ip"
    using pre_dc ip_ne ip(1) post_dc by (rule match_price_int)
  have p2: "match_price (pre @ ip @ CHR ''.'' # fp @ post) = Some (ip @ CHR ''.'' # fp)"
    using pre_dc ip_ne ip(1) fp post_d by (rule match_price_frac)
  have f1: "match_feedback (pre @ ip @ post) = Some ip"
    unfolding match_feedback_def using pre_dc ip_ne ip(1) post_dc' by (rule first_run_form)
  have s1: "match_shipping (pre @ ds @ post) = Some ds"
    unfolding match_shipping_def using pre_dd ds(1) ds_dd post_dd by (rule first_run_form)
  have "match_shipping (pre @ (ds @ CHR ''.'' # fp) @ post) = Some (ds @ CHR ''.'' # fp)"
    unfolding match_shipping_def using pre_dd _ dsf_dd post_dd by (rule first_run_form) simp
  then have s2: "match_shipping (pre @ ds @ CHR ''.'' # fp @ post) = Some (ds @ CHR ''.'' # fp)"
    by simp
  have n1: "match_price pre = None"
    using pre_dc by (rule match_price_none)
  have n2: "match_feedback pre = None"
    unfolding match_feedback_def using pre_dc by (rule first_run_none)
  have n3: "match_shipping pre = None"
    unfolding match_shipping_def using pre_dd by (rule first_run_none)

  have v1: "parseFloat (replace_commas ip) = Num (of_nat (digits_val (replace_commas ip)))"
    using rc_ne rc_d by (rule parseFloat_int)
  have v2: "parseFloat (replace_commas (ip @ CHR ''.'' # fp))
            = Num (of_nat (digits_val (replace_commas ip)) + of_nat (digits_val fp) / 10 ^ length fp)"
    unfolding replace_commas_frac [OF fp] using rc_ne rc_d fp by (rule parseFloat_frac)
  have v3: "parseInt (replace_commas ip) = Num (of_nat (digits_val (replace_commas ip)))"
    using rc_ne rc_d by (rule parseInt_digits)
  have v4: "parseFloat ds = Num (of_nat (digits_val ds))"
    using ds by (rule parseFloat_int)
  have v5: "parseFloat (ds @ CHR ''.'' # fp)
            = Num (of_nat (digits_val ds) + of_nat (digits_val fp) / 10 ^ length fp)"
    using ds fp by (rule parseFloat_frac)

  have c1: "priceEl d = Some el \<and> textContent el = pre @ ip @ post \<longrightarrow>
            extractPrice d = Some (Num (of_nat (digits_val (replace_commas ip))))"
    by (simp add: extractPrice_text p1 v1)
  have c2: "priceEl d = Some el \<and> textContent el = pre @ ip @ ''.'' @ fp @ post \<longrightarrow>
            extractPrice d = Some (Num (of_nat (digits_val (replace_commas ip))
                                        + of_nat (digits_val fp) / 10 ^ length fp))"
    by (simp add: extractPrice_text p2 v2)
  have c3: "feedbackEl d = Some el \<and> textContent el = pre @ ip @ post \<longrightarrow>
            extractSellerFeedback d = Some (Num (of_nat (digits_val (replace_commas ip))))"
    by (simp add: extractSellerFeedback_text f1 v3)
  have c4: "shippingEl d = Some el \<and> textContent el = pre @ ds @ post
            \<and> \<not> includes_str (toLowerCase (textContent el)) ''free'' \<longrightarrow>
            extractShipping d = Some (Num (of_nat (digits_val ds)))"
  proof (intro impI, elim conjE)
    assume a: "shippingEl d = Some el"
      and n: "\<not> includes_str (toLowerCase (textContent el)) ''free''"
    assume "textContent el = pre @ ds @ post"
    with extractShipping_text [OF a n] show "extractShipping d = Some (Num (of_nat (digits_val ds)))"
      by (simp add: s1 v4)
  qed
  have c5: "shippingEl d = Some el \<and> textContent el = pre @ ds @ ''.'' @ fp @ post
            \<and> \<not> includes_str (toLowerCase (textContent el)) ''free'' \<longrightarrow>
            extractShipping d = Some (Num (of_nat (digits_val ds)
                                           + of_nat (digits_val fp) / 10 ^ length fp))"
  proof (intro impI, elim conjE)
    assume a: "shippingEl d = Some el"
      and n: "\<not> includes_str (toLowerCase (textContent el)) ''free''"
    assume "textContent el = pre @ ds @ ''.'' @ fp @ post"
    with extractShipping_text [OF a n] show "extractShipping d = Some (Num (of_nat (digits_val ds)
                                           + of_nat (digits_val fp) / 10 ^ length fp))"
      by (simp add: s2 v5)
  qed
  have c6: "priceEl d = Some el \<and> textContent el = pre \<longrightarrow> extractPrice d = None"
    by (simp add: extractPrice_text n1)
  have c7: "feedbackEl d = Some el \<and> textContent el = pre \<longrightarrow> extractSellerFeedback d = None"
    by (simp add: extractSellerFeedback_text n2)
  have c8: "shippingEl d = Some el \<and> textContent el = pre
            \<and> \<not> includes_str (toLowerCase (textContent el)) ''free'' \<longrightarrow>
            extractShipping d = None"
  proof (intro impI, elim conjE)
    assume a: "shippingEl d = Some el"
      and n: "\<not> includes_str (toLowerCase (textContent el)) ''free''"
    assume "textContent el = pre"
    with extractShipping_text [OF a n] show "extractShipping d = None"
      by (simp add: n3)
  qed
  from c1 c2 c3 c4 c5 c6 c7 c8 show ?thesis
    by (intro conjI)
qed


text \<open>
  Claim C5, as stated: a text that is not a well-formed number gives \<^verbatim>\<open>null\<close>, never
  a partial value. The patterns are searched for anywhere in the text, so the leftover
  \<^verbatim>\<open>abc\<close> of \<^verbatim>\<open>12abc\<close> is dropped and the price is 12.
\<close>

theorem extractPrice_keeps_partial_number:
  "extractPrice (price_page ''12abc'') = Some (Num 12)"
  by (simp add: extractPrice_def price_page_def page_simps match_price_def str_simps num_simps)

theorem numeric_extractors_read_first_run_witness:
  "extractPrice (price_page ''US $1,234.56 each'') = Some (Num 1234.56)
   \<and> extractSellerFeedback (feedback_page ''(1,234)'') = Some (Num 1234)
   \<and> extractShipping (shipping_page ''$4.99'') = Some (Num 4.99)
   \<and> extractPrice (price_page ''abc'') = None"
proof -
  have ip: "\<forall>c \<in> set ''1,234''. digit_or_comma c" "\<exists>c \<in> set ''1,234''. is_digit c"
    by (simp_all add: digit_or_comma_def is_digit_def)
  have ds: "''4'' \<noteq> []" "\<forall>c \<in> set ''4''. is_digit c"
    by (simp_all add: is_digit_def)
  have fp56: "\<forall>c \<in> set ''56''. is_digit c" and fp99: "\<forall>c \<in> set ''99''. is_digit c"
    by (simp_all add: is_digit_def)
  have n56: "length (replace_commas ''1,234'') + length ''56'' \<le> 15"
    "length ''4'' + length ''56'' \<le> 15"
    and n99: "length (replace_commas ''1,234'') + length ''99'' \<le> 15"
    "length ''4'' + length ''99'' \<le> 15"
    by (simp_all add: replace_commas_def)
  have pre1: "\<forall>c \<in> set ''US $''. \<not> numeric_char c"
    and pre2: "\<forall>c \<in> set ''(''. \<not> numeric_char c"
    and pre3: "\<forall>c \<in> set ''$''. \<not> numeric_char c"
    and pre4: "\<forall>c \<in> set ''abc''. \<not> numeric_char c"
    by (simp_all add: numeric_char_def is_digit_def)
  have post1: "'' each'' = [] \<or> \<not> numeric_char (hd '' each'')"
    and post2: "'')'' = [] \<or> \<not> numeric_char (hd '')'')"
    and post3: "([]::string) = [] \<or> \<not> numeric_char (hd [])"
    by (simp_all add: numeric_char_def is_digit_def)
  have el1: "priceEl (price_page ''US $1,234.56 each'') = Some (text_element ''US $1,234.56 each'')
             \<and> textContent (text_element ''US $1,234.56 each'')
               = ''US $'' @ ''1,234'' @ ''.'' @ ''56'' @ '' each''"
    by (simp add: price_page_def page_simps)
  have el2: "feedbackEl (feedback_page ''(1,234)'') = Some (text_element ''(1,234)'')
             \<and> textContent (text_element ''(1,234)'') = ''('' @ ''1,234'' @ '')''"
    by (simp add: feedback_page_def page_simps)
  have el3: "shippingEl (shipping_page ''$4.99'') = Some (text_element ''$4.99'')
             \<and> textContent (text_element ''$4.99'') = ''$'' @ ''4'' @ ''.'' @ ''99'' @ []
             \<and> \<not> includes_str (toLowerCase (textContent (text_element ''$4.99''))) ''free''"
    by (simp add: shipping_page_def page_simps toLowerCase_def to_lower_def)
  have el4: "priceEl (price_page ''abc'') = Some (text_element ''abc'')
             \<and> textContent (text_element ''abc'') = ''abc''"
    by (simp add: price_page_def page_simps)
  have v1: "Num (of_nat (digits_val (replace_commas ''1,234''))
                 + of_nat (digits_val ''56'') / 10 ^ length ''56'') = Num 1234.56"
    and v2: "Num (of_nat (digits_val (replace_commas ''1,234''))) = Num 1234"
    and v3: "Num (of_nat (digits_val ''4'') + of_nat (digits_val ''99'') / 10 ^ length ''99'')
             = Num 4.99"
    by (simp_all add: replace_commas_def num_simps)
  from numeric_extractors_read_first_run [OF pre1 ip ds fp56 post1 n56,
         of "price_page ''US $1,234.56 each''" "text_element ''US $1,234.56 each''"] el1
  have r1: "extractPrice (price_page ''US $1,234.56 each'')
        = Some (Num (of_nat (digits_val (replace_commas ''1,234''))
                     + of_nat (digits_val ''56'') / 10 ^ length ''56''))"
    by blast
  from numeric_extractors_read_first_run [OF pre2 ip ds fp56 post2 n56,
         of "feedback_page ''(1,234)''" "text_element ''(1,234)''"] el2
  have r2: "extractSellerFeedback (feedback_page ''(1,234)'')
        = Some (Num (of_nat (digits_val (replace_commas ''1,234''))))"
    by blast
  from numeric_extractors_read_first_run [OF pre3 ip ds fp99 post3 n99,
         of "shipping_page ''$4.99''" "text_element ''$4.99''"] el3
  have r3: "extractShipping (shipping_page ''$4.99'')
        = Some (Num (of_nat (digits_val ''4'') + of_nat (digits_val ''99'') / 10 ^ length ''99''))"
    by blast
  from numeric_extractors_read_first_run [OF pre4 ip ds fp56 post3 n56,
         of "price_page ''abc''" "text_element ''abc''"] el4
  have r4: "extractPrice (price_page ''abc'') = None"
    by blast
  from r1 r2 r3 r4 show ?thesis
    by (simp only: v1 v2 v3 simp_thms)
qed

text \<open>The examples of the claim, and a shipping text with a thousands separator.\<close>

lemma numeric_examples:
  "extractPrice (price_page ''1,234.56'') = Some (Num 1234.56)
   \<and> extractSellerFeedback (feedback_page ''1,234'') = Some (Num 1234)
   \<and> extractShipping (shipping_page ''$1,234.56'') = Some (Num 1)
   \<and> extractPrice (price_page ''abc'') = None"
  by (simp add: extractPrice_def extractSellerFeedback_def extractShipping_def
      price_page_def feedback_page_def shipping_page_def page_simps match_price_def
      match_feedback_def match_shipping_def str_simps num_simps)

end
